theory Spec2Isabelle
  imports Main "HOL-Library.Word"
begin

section \<open>The generic admission webhook plugin (plugin/pkg/admission/webhook/admission.go)\<close>

text \<open>
  The plugin asks every configured external admission hook whether a request may
  proceed. \<open>Admit\<close> lists the hooks, starts one goroutine per hook, each goroutine runs
  \<open>callHook\<close> and sends a rejection down a buffered channel, and after the wait group has
  been released the channel is drained and the first error found in it is returned.

  The embedding keeps the functions and their names. What Go does beyond returning a
  value is made explicit:
  \<^item> a Go \<open>error\<close> result is an \<open>error option\<close>, \<open>None\<close> being \<open>nil\<close>;
  \<^item> calls that leave the process (endpoint resolution, client construction, the POST)
    and the log calls are recorded in a list of events;
  \<^item> the goroutines are run in a completion order, a list of hook indices that is a
    parameter of \<open>Admit\<close>: the order in which the goroutines reach the end of their body
    (where the send on the channel happens);
  \<^item> a send on a full channel blocks for ever (nothing receives before \<open>wg.Wait\<close>
    returns), so \<open>Admit\<close> has an optional result and \<open>None\<close> means it never returns.
\<close>

subsection \<open>Types of the imported packages\<close>

type_synonym bytes = "8 word list"

text \<open>
  Modelled from the spec: \<open>metav1.Status\<close>, the type of the \<open>Result\<close> of a review, is
  declared outside this file; the spec describes it as carrying a machine-readable reason
  and a human-readable message.
\<close>

record Status =
  status_Reason :: string
  status_Message :: string

text \<open>\<open>admissionv1alpha1.AdmissionReviewStatus\<close>: \<open>Result\<close> is a pointer and may be nil.\<close>

record AdmissionReviewStatus =
  Allowed :: bool
  Result :: "Status option"

text \<open>
  Modelled from the spec: \<open>admissionv1alpha1.AdmissionReview\<close> and
  \<open>NewAdmissionReview\<close> are declared outside this file. The spec describes the
  outbound review as echoing the request attributes, so the attributes are kept as they
  are, and the status of a new review is the zero value.
\<close>

record 'attr AdmissionReview =
  Spec :: 'attr
  ReviewStatus :: AdmissionReviewStatus

definition NewAdmissionReview :: "'attr \<Rightarrow> 'attr AdmissionReview" where
  "NewAdmissionReview attr =
     \<lparr>Spec = attr, ReviewStatus = \<lparr>Allowed = False, Result = None\<rparr>\<rparr>"

text \<open>\<open>admissionregistration.ExternalAdmissionHook\<close>, with the fields this file reads.\<close>

record ServiceReference =
  svc_Namespace :: string
  svc_Name :: string

record AdmissionHookClientConfig =
  Service :: ServiceReference
  CABundle :: bytes

record 'rule ExternalAdmissionHook =
  Name :: string
  Rules :: "'rule list"
  ClientConfig :: AdmissionHookClientConfig

text \<open>\<open>url.URL\<close> as returned by the service resolver, and \<open>rest.Config\<close>.\<close>

record URL =
  url_Host :: string
  url_Path :: string

record GroupVersion =
  gv_Group :: string
  gv_Version :: string

datatype NegotiatedSerializer = NegotiatedSerializerWrapper GroupVersion

record TLSClientConfig =
  CAData :: bytes
  CertData :: bytes
  KeyData :: bytes

text \<open>\<open>time.Duration\<close> counts nanoseconds.\<close>

type_synonym Duration = int

definition Second :: Duration where
  "Second = 1000000000"

record Config =
  Host :: string
  APIPath :: string
  TLS :: TLSClientConfig
  UserAgent :: string
  Timeout :: Duration
  ContentConfig :: NegotiatedSerializer

datatype RESTClient = RESTClient Config

subsection \<open>Errors\<close>

text \<open>
  The dynamic types a Go \<open>error\<close> takes in this file: \<open>*ErrCallingWebhook\<close> (declared
  here), \<open>*apierrors.StatusError\<close>, the error of \<open>fmt.Errorf\<close> (kept as its format
  string and arguments), and the errors of the collaborators, which are opaque.
\<close>

datatype error =
    ErrCallingWebhook string "error option"
  | StatusError Status
  | Errorf string "fmt_arg list"
  | External string
and fmt_arg =
    ArgString string
  | ArgError error

text \<open>The type assertion \<open>err.(*ErrCallingWebhook)\<close>.\<close>

fun is_ErrCallingWebhook :: "error \<Rightarrow> bool" where
  "is_ErrCallingWebhook (ErrCallingWebhook n r) = True"
| "is_ErrCallingWebhook (StatusError s) = False"
| "is_ErrCallingWebhook (Errorf f args) = False"
| "is_ErrCallingWebhook (External s) = False"

fun is_StatusError :: "error \<Rightarrow> bool" where
  "is_StatusError (StatusError s) = True"
| "is_StatusError (ErrCallingWebhook n r) = False"
| "is_StatusError (Errorf f args) = False"
| "is_StatusError (External s) = False"

subsection \<open>The plugin and its collaborators\<close>

text \<open>
  \<open>GenericAdmissionWebhook\<close>: the hook source is represented by what its \<open>List\<close>
  returns during the call, the service resolver by its \<open>ResolveEndpoint\<close>.
\<close>

record 'rule GenericAdmissionWebhook =
  hookSource :: "error + 'rule ExternalAdmissionHook list"
  serviceResolver :: "string \<Rightarrow> string \<Rightarrow> error + URL"
  negotiatedSerializer :: NegotiatedSerializer
  clientCert :: bytes
  clientKey :: bytes

text \<open>
  The functions of other files and packages that \<open>callHook\<close> calls, taken as parameters:
  \<open>RuleMatcher.Matches\<close> of this package, \<open>rest.UnversionedRESTClientFor\<close>, and the
  request \<open>client.Post().Context(ctx).Body(&request).Do().Into(&request)\<close>, which
  returns an error or leaves the decoded status in the review.
\<close>

record ('rule, 'attr) collaborators =
  Matches :: "'rule \<Rightarrow> 'attr \<Rightarrow> bool"
  UnversionedRESTClientFor :: "Config \<Rightarrow> error + RESTClient"
  Do :: "RESTClient \<Rightarrow> 'attr AdmissionReview \<Rightarrow> error + AdmissionReviewStatus"

datatype 'attr event =
    ResolveEndpoint string string
  | NewClient Config
  | Post RESTClient "'attr AdmissionReview"
  | Warningf string "fmt_arg list"
  | HandleError error

subsection \<open>hookClient\<close>

definition hookClient ::
  "'rule GenericAdmissionWebhook \<Rightarrow> ('rule, 'attr) collaborators \<Rightarrow>
   'rule ExternalAdmissionHook \<Rightarrow> 'attr event list \<times> (error + RESTClient)" where
  "hookClient a env h =
     (let ns = svc_Namespace (Service (ClientConfig h));
          nm = svc_Name (Service (ClientConfig h))
      in case serviceResolver a ns nm of
           Inl err \<Rightarrow> ([ResolveEndpoint ns nm], Inl err)
         | Inr u \<Rightarrow>
             (let cfg = \<lparr>Host = url_Host u,
                         APIPath = url_Path u,
                         TLS = \<lparr>CAData = CABundle (ClientConfig h),
                                 CertData = clientCert a,
                                 KeyData = clientKey a\<rparr>,
                         UserAgent = ''kube-apiserver-admission'',
                         Timeout = 30 * Second,
                         ContentConfig = negotiatedSerializer a\<rparr>
              in ([ResolveEndpoint ns nm, NewClient cfg], UnversionedRESTClientFor env cfg)))"

subsection \<open>callHook\<close>

text \<open>
  The loop over \<open>h.Rules\<close> with its \<open>break\<close>. The second component lists the rules on
  which \<open>Matches\<close> was called.
\<close>

fun match_rules :: "('rule \<Rightarrow> 'attr \<Rightarrow> bool) \<Rightarrow> 'attr \<Rightarrow> 'rule list \<Rightarrow> bool \<times> 'rule list" where
  "match_rules M attr [] = (False, [])"
| "match_rules M attr (r # rs) =
     (if M r attr then (True, [r])
      else (let (m, seen) = match_rules M attr rs in (m, r # seen)))"

definition callHook ::
  "'rule GenericAdmissionWebhook \<Rightarrow> ('rule, 'attr) collaborators \<Rightarrow>
   'rule ExternalAdmissionHook \<Rightarrow> 'attr \<Rightarrow> 'attr event list \<times> error option" where
  "callHook a env h attr =
     (let matches = fst (match_rules (Matches env) attr (Rules h)) in
      if \<not> matches then ([], None)
      else
        (let request = NewAdmissionReview attr;
             (evs, c) = hookClient a env h
         in case c of
              Inl err \<Rightarrow> (evs, Some (ErrCallingWebhook (Name h) (Some err)))
            | Inr client \<Rightarrow>
                (case Do env client request of
                   Inl err \<Rightarrow>
                     (evs @ [Post client request],
                      Some (ErrCallingWebhook (Name h) (Some err)))
                 | Inr status \<Rightarrow>
                     if Allowed status then (evs @ [Post client request], None)
                     else
                       (case Result status of
                          None \<Rightarrow>
                            (evs @ [Post client request],
                             Some (Errorf ''admission webhook %q denied the request without explanation''
                                     [ArgString (Name h)]))
                        | Some res \<Rightarrow>
                            (evs @ [Post client request], Some (StatusError res))))))"

text \<open>The value of the variable \<open>matches\<close> after the loop.\<close>

definition hook_matches ::
  "('rule, 'attr) collaborators \<Rightarrow> 'rule ExternalAdmissionHook \<Rightarrow> 'attr \<Rightarrow> bool" where
  "hook_matches env h attr = fst (match_rules (Matches env) attr (Rules h))"

subsection \<open>Admit\<close>

text \<open>
  The body of the goroutine started for one hook: the events it causes and the values it
  sends down \<open>errCh\<close>, in order.
\<close>

definition hook_task ::
  "'rule GenericAdmissionWebhook \<Rightarrow> ('rule, 'attr) collaborators \<Rightarrow>
   'rule ExternalAdmissionHook \<Rightarrow> 'attr \<Rightarrow> 'attr event list \<times> error list" where
  "hook_task a env hook attr =
     (let (evs, err) = callHook a env hook attr in
      case err of
        None \<Rightarrow> (evs, [])
      | Some e \<Rightarrow>
          if is_ErrCallingWebhook e then
            (evs @ [Warningf ''Failed calling webhook %v: %v'' [ArgString (Name hook), ArgError e],
                    HandleError e],
             [])
          else
            (evs @ [Warningf ''rejected by webhook %v %t: %v''
                      [ArgString (Name hook), ArgError e, ArgError e]],
             [e]))"

text \<open>
  A buffered channel of errors: its capacity and the values waiting in it, oldest first.
  A send on a full channel does not return.
\<close>

record chan =
  cap :: nat
  buf :: "error list"

definition make_chan :: "nat \<Rightarrow> chan" where
  "make_chan n = \<lparr>cap = n, buf = []\<rparr>"

definition send :: "chan \<Rightarrow> error \<Rightarrow> chan option" where
  "send ch e = (if length (buf ch) < cap ch then Some (ch\<lparr>buf := buf ch @ [e]\<rparr>) else None)"

fun send_all :: "chan \<Rightarrow> error list \<Rightarrow> chan option" where
  "send_all ch [] = Some ch"
| "send_all ch (e # es) = (case send ch e of None \<Rightarrow> None | Some ch' \<Rightarrow> send_all ch' es)"

text \<open>
  The goroutines, run to their end one after the other in the completion order \<open>sched\<close>;
  entry \<open>i\<close> stands for the goroutine started with \<open>&hooks[i]\<close>. The result is the
  state at \<open>wg.Wait()\<close>, if every goroutine got there.
\<close>

fun run_tasks ::
  "'rule GenericAdmissionWebhook \<Rightarrow> ('rule, 'attr) collaborators \<Rightarrow>
   'rule ExternalAdmissionHook list \<Rightarrow> 'attr \<Rightarrow> nat list \<Rightarrow>
   'attr event list \<times> chan \<Rightarrow> ('attr event list \<times> chan) option" where
  "run_tasks a env hooks attr [] st = Some st"
| "run_tasks a env hooks attr (i # sched) (evs, ch) =
     (let (tevs, sends) = hook_task a env (hooks ! i) attr in
      case send_all ch sends of
        None \<Rightarrow> None
      | Some ch' \<Rightarrow> run_tasks a env hooks attr sched (evs @ tevs, ch'))"

text \<open>
  A completion order of \<open>n\<close> goroutines names each of them once.
\<close>

definition completion_order :: "nat \<Rightarrow> nat list \<Rightarrow> bool" where
  "completion_order n sched = (distinct sched \<and> set sched = {0..<n})"

text \<open>
  From the creation of the channel to the end of the \<open>range errCh\<close> loop: the events
  of the goroutines and the slice \<open>errs\<close>.
\<close>

definition fan_out ::
  "'rule GenericAdmissionWebhook \<Rightarrow> ('rule, 'attr) collaborators \<Rightarrow>
   'rule ExternalAdmissionHook list \<Rightarrow> 'attr \<Rightarrow> nat list \<Rightarrow>
   ('attr event list \<times> error list) option" where
  "fan_out a env hooks attr sched =
     (case run_tasks a env hooks attr sched ([], make_chan (length hooks)) of
        None \<Rightarrow> None
      | Some (evs, errCh) \<Rightarrow> Some (evs, buf errCh))"

definition Admit ::
  "'rule GenericAdmissionWebhook \<Rightarrow> ('rule, 'attr) collaborators \<Rightarrow> 'attr \<Rightarrow> nat list \<Rightarrow>
   ('attr event list \<times> error option) option" where
  "Admit a env attr sched =
     (case hookSource a of
        Inl err \<Rightarrow> Some ([], Some (Errorf ''failed listing hooks: %v'' [ArgError err]))
      | Inr hooks \<Rightarrow>
          (case fan_out a env hooks attr sched of
             None \<Rightarrow> None
           | Some (evs, errs) \<Rightarrow>
               if length errs = 0 then Some (evs, None)
               else Some (evs @ map (\<lambda>i. HandleError (errs ! i)) [1..<length errs],
                          Some (errs ! 0))))"

subsection \<open>A small cluster to run the plugin on\<close>

text \<open>
  Rules and attributes are resource names here; a rule matches its own resource and
  \<open>*\<close> matches every resource. The resolver knows every service but \<open>gone\<close>, a
  client needs a CA bundle, and the services answer by host: \<open>quota\<close> and \<open>policy\<close>
  deny with a result, \<open>mute\<close> denies without one, \<open>down\<close> refuses the connection, and
  every other service allows.
\<close>

definition ex_resolver :: "string \<Rightarrow> string \<Rightarrow> error + URL" where
  "ex_resolver ns nm =
     (if nm = ''gone'' then Inl (External ''no endpoints'')
      else Inr \<lparr>url_Host = nm, url_Path = ''/'' @ ns\<rparr>)"

definition ex_answer :: "string \<Rightarrow> error + AdmissionReviewStatus" where
  "ex_answer host =
     (if host = ''quota'' then
        Inr \<lparr>Allowed = False,
             Result = Some \<lparr>status_Reason = ''Forbidden'', status_Message = ''quota exceeded''\<rparr>\<rparr>
      else if host = ''policy'' then
        Inr \<lparr>Allowed = False,
             Result = Some \<lparr>status_Reason = ''Invalid'', status_Message = ''label missing''\<rparr>\<rparr>
      else if host = ''mute'' then Inr \<lparr>Allowed = False, Result = None\<rparr>
      else if host = ''down'' then Inl (External ''connection refused'')
      else Inr \<lparr>Allowed = True, Result = None\<rparr>)"

definition ex_env :: "(string, string) collaborators" where
  "ex_env =
     \<lparr>Matches = (\<lambda>r x. r = ''*'' \<or> r = x),
      UnversionedRESTClientFor =
        (\<lambda>cfg. if CAData (TLS cfg) = [] then Inl (External ''no CA'') else Inr (RESTClient cfg)),
      Do = (\<lambda>c req. case c of RESTClient cfg \<Rightarrow> ex_answer (Host cfg))\<rparr>"

definition ex_hook ::
  "string \<Rightarrow> string list \<Rightarrow> string \<Rightarrow> bytes \<Rightarrow> string ExternalAdmissionHook" where
  "ex_hook n rs svc ca =
     \<lparr>Name = n, Rules = rs,
      ClientConfig = \<lparr>Service = \<lparr>svc_Namespace = ''ns'', svc_Name = svc\<rparr>, CABundle = ca\<rparr>\<rparr>"

definition ex_plugin ::
  "(error + string ExternalAdmissionHook list) \<Rightarrow> string GenericAdmissionWebhook" where
  "ex_plugin listed =
     \<lparr>hookSource = listed,
      serviceResolver = ex_resolver,
      negotiatedSerializer =
        NegotiatedSerializerWrapper \<lparr>gv_Group = ''admission.k8s.io'', gv_Version = ''v1alpha1''\<rparr>,
      clientCert = [1],
      clientKey = [2]\<rparr>"

definition hook_quota :: "string ExternalAdmissionHook" where
  "hook_quota = ex_hook ''A'' [''pods''] ''quota'' [7]"

definition hook_policy :: "string ExternalAdmissionHook" where
  "hook_policy = ex_hook ''B'' [''nodes'', ''*'', ''pods''] ''policy'' [7]"

definition hook_down :: "string ExternalAdmissionHook" where
  "hook_down = ex_hook ''C'' [''pods''] ''down'' [7]"

definition hook_gone :: "string ExternalAdmissionHook" where
  "hook_gone = ex_hook ''D'' [''pods''] ''gone'' [7]"

definition hook_noca :: "string ExternalAdmissionHook" where
  "hook_noca = ex_hook ''E'' [''pods''] ''fine'' []"

definition hook_mute :: "string ExternalAdmissionHook" where
  "hook_mute = ex_hook ''F'' [''pods''] ''mute'' [7]"

definition hook_fine :: "string ExternalAdmissionHook" where
  "hook_fine = ex_hook ''G'' [''pods''] ''fine'' [7]"

definition hook_other :: "string ExternalAdmissionHook" where
  "hook_other = ex_hook ''H'' [''nodes'', ''services''] ''quota'' [7]"

section \<open>Properties\<close>

subsection \<open>The rule loop\<close>

lemma fst_match_rules: "fst (match_rules M attr rs) = (\<exists>r\<in>set rs. M r attr)"
  by (induction rs) (auto split: prod.splits)

lemma snd_match_rules:
  "snd (match_rules M attr rs) =
     takeWhile (\<lambda>r. \<not> M r attr) rs @ take 1 (dropWhile (\<lambda>r. \<not> M r attr) rs)"
  by (induction rs) (auto split: prod.splits)

subsection \<open>The outcomes of callHook\<close>

lemma hookClient_events: "fst (hookClient a env h) \<noteq> []"
  by (simp add: hookClient_def Let_def split: sum.splits)

lemma hookClient_resolve_error:
  "serviceResolver a (svc_Namespace (Service (ClientConfig h))) (svc_Name (Service (ClientConfig h))) = Inl err
   \<Longrightarrow> snd (hookClient a env h) = Inl err"
  by (simp add: hookClient_def Let_def)

lemma callHook_no_match:
  "\<not> hook_matches env h attr \<Longrightarrow> callHook a env h attr = ([], None)"
  by (simp add: callHook_def hook_matches_def)

lemma callHook_client_error:
  "hook_matches env h attr \<Longrightarrow> snd (hookClient a env h) = Inl err \<Longrightarrow>
   callHook a env h attr =
     (fst (hookClient a env h), Some (ErrCallingWebhook (Name h) (Some err)))"
  by (simp add: callHook_def hook_matches_def Let_def case_prod_beta)

lemma callHook_transport_error:
  "hook_matches env h attr \<Longrightarrow> snd (hookClient a env h) = Inr client \<Longrightarrow>
   Do env client (NewAdmissionReview attr) = Inl err \<Longrightarrow>
   callHook a env h attr =
     (fst (hookClient a env h) @ [Post client (NewAdmissionReview attr)],
      Some (ErrCallingWebhook (Name h) (Some err)))"
  by (simp add: callHook_def hook_matches_def Let_def case_prod_beta)

lemma callHook_allowed:
  "hook_matches env h attr \<Longrightarrow> snd (hookClient a env h) = Inr client \<Longrightarrow>
   Do env client (NewAdmissionReview attr) = Inr st \<Longrightarrow> Allowed st \<Longrightarrow>
   callHook a env h attr =
     (fst (hookClient a env h) @ [Post client (NewAdmissionReview attr)], None)"
  by (simp add: callHook_def hook_matches_def Let_def case_prod_beta)

lemma callHook_no_explanation:
  "hook_matches env h attr \<Longrightarrow> snd (hookClient a env h) = Inr client \<Longrightarrow>
   Do env client (NewAdmissionReview attr) = Inr st \<Longrightarrow> \<not> Allowed st \<Longrightarrow> Result st = None \<Longrightarrow>
   callHook a env h attr =
     (fst (hookClient a env h) @ [Post client (NewAdmissionReview attr)],
      Some (Errorf ''admission webhook %q denied the request without explanation''
              [ArgString (Name h)]))"
  by (simp add: callHook_def hook_matches_def Let_def case_prod_beta)

lemma callHook_denied:
  "hook_matches env h attr \<Longrightarrow> snd (hookClient a env h) = Inr client \<Longrightarrow>
   Do env client (NewAdmissionReview attr) = Inr st \<Longrightarrow> \<not> Allowed st \<Longrightarrow> Result st = Some res \<Longrightarrow>
   callHook a env h attr =
     (fst (hookClient a env h) @ [Post client (NewAdmissionReview attr)],
      Some (StatusError res))"
  by (simp add: callHook_def hook_matches_def Let_def case_prod_beta)

lemma callHook_error_cases:
  "snd (callHook a env h attr) = Some e \<Longrightarrow>
     (\<exists>err. e = ErrCallingWebhook (Name h) (Some err)) \<or>
     e = Errorf ''admission webhook %q denied the request without explanation'' [ArgString (Name h)] \<or>
     (\<exists>res. e = StatusError res)"
  by (auto simp: callHook_def Let_def case_prod_beta split: sum.splits if_splits option.splits)

subsection \<open>The goroutines and the channel\<close>

lemma hook_task_sends:
  "snd (hook_task a env h attr) =
     (case snd (callHook a env h attr) of
        None \<Rightarrow> []
      | Some e \<Rightarrow> if is_ErrCallingWebhook e then [] else [e])"
  by (simp add: hook_task_def split: prod.splits option.splits)

lemma hook_task_sends_length: "length (snd (hook_task a env h attr)) \<le> 1"
  by (simp add: hook_task_sends split: option.splits)

lemma send_all_one:
  "length es \<le> 1 \<Longrightarrow> length (buf ch) < cap ch \<Longrightarrow>
   send_all ch es = Some (ch\<lparr>buf := buf ch @ es\<rparr>)"
  by (cases es) (auto simp: send_def)

lemma run_tasks_Some:
  "length (buf ch) + length sched \<le> cap ch \<Longrightarrow>
   run_tasks a env hooks attr sched (evs, ch) =
     Some (evs @ concat (map (\<lambda>i. fst (hook_task a env (hooks ! i) attr)) sched),
           ch\<lparr>buf := buf ch @ concat (map (\<lambda>i. snd (hook_task a env (hooks ! i) attr)) sched)\<rparr>)"
proof (induction sched arbitrary: evs ch)
  case Nil
  then show ?case by simp
next
  case (Cons i sched)
  obtain tevs ss where t: "hook_task a env (hooks ! i) attr = (tevs, ss)"
    by (cases "hook_task a env (hooks ! i) attr")
  have len: "length ss \<le> 1"
    using hook_task_sends_length [of a env "hooks ! i" attr] t by simp
  have lt: "length (buf ch) < cap ch"
    using Cons.prems by simp
  have s: "send_all ch ss = Some (ch\<lparr>buf := buf ch @ ss\<rparr>)"
    using send_all_one [OF len lt] .
  have "length (buf (ch\<lparr>buf := buf ch @ ss\<rparr>)) + length sched \<le> cap (ch\<lparr>buf := buf ch @ ss\<rparr>)"
    using Cons.prems len by simp
  from Cons.IH [OF this] show ?case
    using t s by simp
qed

lemma sched_length:
  assumes "distinct sched" and "set sched \<subseteq> {0..<n}"
  shows "length sched \<le> n"
proof -
  have "card (set sched) \<le> card {0..<n}"
    using assms(2) by (intro card_mono) auto
  then show ?thesis
    using assms(1) by (simp add: distinct_card)
qed

lemma fan_out_eq:
  assumes "distinct sched" and "set sched \<subseteq> {0..<length hooks}"
  shows "fan_out a env hooks attr sched =
     Some (concat (map (\<lambda>i. fst (hook_task a env (hooks ! i) attr)) sched),
           concat (map (\<lambda>i. snd (hook_task a env (hooks ! i) attr)) sched))"
proof -
  have "length sched \<le> length hooks"
    using sched_length [OF assms] .
  then have "length (buf (make_chan (length hooks))) + length sched \<le> cap (make_chan (length hooks))"
    by (simp add: make_chan_def)
  from run_tasks_Some [OF this, of a env hooks attr "[]"] show ?thesis
    by (simp add: fan_out_def make_chan_def)
qed

lemma Admit_result:
  assumes "completion_order (length hooks) sched" and "hookSource a = Inr hooks"
  shows "\<exists>evs. Admit a env attr sched =
     Some (evs, case concat (map (\<lambda>i. snd (hook_task a env (hooks ! i) attr)) sched) of
                  [] \<Rightarrow> None | e # es \<Rightarrow> Some e)"
proof -
  have "distinct sched" and "set sched \<subseteq> {0..<length hooks}"
    using assms(1) by (simp_all add: completion_order_def)
  from fan_out_eq [OF this, of a env attr]
  obtain evs errs where f: "fan_out a env hooks attr sched = Some (evs, errs)"
    and errs: "errs = concat (map (\<lambda>i. snd (hook_task a env (hooks ! i) attr)) sched)"
    by simp
  have "\<exists>evs'. Admit a env attr sched = Some (evs', case errs of [] \<Rightarrow> None | e # es \<Rightarrow> Some e)"
    using f assms(2) by (cases errs) (simp_all add: Admit_def)
  then show ?thesis
    unfolding errs .
qed

lemma concat_sends_Nil:
  "(\<And>i. i \<in> set sched \<Longrightarrow> f i = []) \<Longrightarrow> concat (map f sched) = []"
  by (induction sched) auto

lemma concat_sends_first:
  assumes "\<And>j. j \<in> set pre \<Longrightarrow> f j = []" and "f k = e # es"
  shows "concat (map f (pre @ k # post)) = e # es @ concat (map f post)"
  using assms by (simp add: concat_sends_Nil)

lemma concat_sends_mem:
  "concat (map f sched) = e # es \<Longrightarrow> \<exists>i\<in>set sched. e \<in> set (f i)"
proof -
  assume "concat (map f sched) = e # es"
  then have "e \<in> set (concat (map f sched))"
    by simp
  then show ?thesis
    by auto
qed


lemma Admit_nil:
  assumes "completion_order (length hooks) sched" and "hookSource a = Inr hooks"
    and "concat (map (\<lambda>i. snd (hook_task a env (hooks ! i) attr)) sched) = []"
  shows "\<exists>evs. Admit a env attr sched = Some (evs, None)"
  using Admit_result [OF assms(1,2), of env attr] unfolding assms(3) by simp

lemma Admit_first:
  assumes "completion_order (length hooks) sched" and "hookSource a = Inr hooks"
    and "concat (map (\<lambda>i. snd (hook_task a env (hooks ! i) attr)) sched) = e # es"
  shows "\<exists>evs. Admit a env attr sched = Some (evs, Some e)"
  using Admit_result [OF assms(1,2), of env attr] unfolding assms(3) by simp

subsection \<open>Listing failure\<close>

text \<open>
  Claim C6. When \<open>List\<close> of the hook source returns an error, \<open>Admit\<close> returns at
  once, in every completion order and whatever the collaborators would answer: its result
  is the error \<open>failed listing hooks: %v\<close> wrapping the listing error, and no event has
  happened, so no endpoint was resolved, no client built and no request posted.
\<close>

theorem Admit_listing_failure:
  assumes "hookSource a = Inl err"
  shows "Admit a env attr sched =
           Some ([], Some (Errorf ''failed listing hooks: %v'' [ArgError err]))"
  using assms by (simp add: Admit_def)

theorem Admit_listing_failure_witness:
  "hookSource (ex_plugin (Inl (External ''etcd down''))) = Inl (External ''etcd down'') \<and>
   Admit (ex_plugin (Inl (External ''etcd down''))) ex_env ''pods'' [1, 0] =
     Some ([], Some (Errorf ''failed listing hooks: %v'' [ArgError (External ''etcd down'')]))"
proof -
  have h: "hookSource (ex_plugin (Inl (External ''etcd down''))) = Inl (External ''etcd down'')"
    by (simp add: ex_plugin_def)
  show ?thesis
    using h Admit_listing_failure [OF h, of ex_env "''pods''" "[1, 0]"] by simp
qed

subsection \<open>Rule matching in callHook\<close>

lemma hookClient_trace:
  "\<exists>evs. fst (hookClient a env h) =
           ResolveEndpoint (svc_Namespace (Service (ClientConfig h)))
             (svc_Name (Service (ClientConfig h))) # evs \<and>
         (\<forall>client req. Post client req \<notin> set evs)"
  by (simp add: hookClient_def Let_def split: sum.splits)

lemma callHook_trace:
  "hook_matches env h attr \<Longrightarrow>
   fst (callHook a env h attr) =
     fst (hookClient a env h) @
     (case snd (hookClient a env h) of
        Inl err \<Rightarrow> []
      | Inr client \<Rightarrow> [Post client (NewAdmissionReview attr)])"
  by (simp add: callHook_def hook_matches_def Let_def case_prod_beta
           split: sum.splits option.splits)

text \<open>
  Claim C5. The variable \<open>matches\<close> is true exactly when one of the rules of the hook
  matches the request. The loop stops at the first matching rule: \<open>Matches\<close> is called on
  the rules before the first match and on that rule, and on no later one. The hook is
  invoked exactly when a rule matches: on a match the events of \<open>callHook\<close> are those of
  \<open>hookClient\<close>, which start with the resolution of the endpoint of the hook, followed
  by the POST of the review of the request when the client was built. So the endpoint is
  resolved exactly when a rule matches, and a request is posted exactly when a rule
  matches and \<open>hookClient\<close> returns a client, with that client and the review of the
  request. When no rule matches, \<open>callHook\<close> returns nil with no event at all, and the
  goroutine sends nothing down the channel.
\<close>

theorem callHook_invoked_iff_rule_matches:
  "hook_matches env h attr = (\<exists>r\<in>set (Rules h). Matches env r attr) \<and>
   snd (match_rules (Matches env) attr (Rules h)) =
     takeWhile (\<lambda>r. \<not> Matches env r attr) (Rules h) @
     take 1 (dropWhile (\<lambda>r. \<not> Matches env r attr) (Rules h)) \<and>
   (hook_matches env h attr \<longrightarrow>
      fst (callHook a env h attr) =
        fst (hookClient a env h) @
        (case snd (hookClient a env h) of
           Inl err \<Rightarrow> []
         | Inr client \<Rightarrow> [Post client (NewAdmissionReview attr)])) \<and>
   (ResolveEndpoint (svc_Namespace (Service (ClientConfig h)))
      (svc_Name (Service (ClientConfig h))) \<in> set (fst (callHook a env h attr)) \<longleftrightarrow>
      hook_matches env h attr) \<and>
   (\<forall>client req.
      Post client req \<in> set (fst (callHook a env h attr)) \<longleftrightarrow>
      hook_matches env h attr \<and> snd (hookClient a env h) = Inr client \<and>
      req = NewAdmissionReview attr) \<and>
   (fst (callHook a env h attr) \<noteq> [] \<longleftrightarrow> hook_matches env h attr) \<and>
   (\<not> hook_matches env h attr \<longrightarrow>
      callHook a env h attr = ([], None) \<and> hook_task a env h attr = ([], []))"
proof (intro conjI impI allI)
  obtain evs where hc: "fst (hookClient a env h) =
           ResolveEndpoint (svc_Namespace (Service (ClientConfig h)))
             (svc_Name (Service (ClientConfig h))) # evs"
    and np: "\<forall>client req. Post client req \<notin> set evs"
    using hookClient_trace [of a env h] by blast
  show "hook_matches env h attr = (\<exists>r\<in>set (Rules h). Matches env r attr)"
    by (simp add: hook_matches_def fst_match_rules)
  show "snd (match_rules (Matches env) attr (Rules h)) =
     takeWhile (\<lambda>r. \<not> Matches env r attr) (Rules h) @
     take 1 (dropWhile (\<lambda>r. \<not> Matches env r attr) (Rules h))"
    by (rule snd_match_rules)
  show "fst (callHook a env h attr) =
        fst (hookClient a env h) @
        (case snd (hookClient a env h) of
           Inl err \<Rightarrow> []
         | Inr client \<Rightarrow> [Post client (NewAdmissionReview attr)])"
    if "hook_matches env h attr"
    using that by (rule callHook_trace)
  show "ResolveEndpoint (svc_Namespace (Service (ClientConfig h)))
      (svc_Name (Service (ClientConfig h))) \<in> set (fst (callHook a env h attr)) \<longleftrightarrow>
      hook_matches env h attr"
  proof (cases "hook_matches env h attr")
    case True
    then show ?thesis
      using hc by (simp add: callHook_trace)
  next
    case False
    then show ?thesis
      by (simp add: callHook_no_match)
  qed
  show "Post client req \<in> set (fst (callHook a env h attr)) \<longleftrightarrow>
      hook_matches env h attr \<and> snd (hookClient a env h) = Inr client \<and>
      req = NewAdmissionReview attr" for client req
  proof (cases "hook_matches env h attr")
    case True
    then show ?thesis
      using hc np by (auto simp: callHook_trace split: sum.splits)
  next
    case False
    then show ?thesis
      by (simp add: callHook_no_match)
  qed
  show "fst (callHook a env h attr) \<noteq> [] \<longleftrightarrow> hook_matches env h attr"
  proof (cases "hook_matches env h attr")
    case True
    then show ?thesis
      using hc by (simp add: callHook_trace)
  next
    case False
    then show ?thesis
      by (simp add: callHook_no_match)
  qed
next
  assume n: "\<not> hook_matches env h attr"
  show "callHook a env h attr = ([], None)"
    using n by (rule callHook_no_match)
  then show "hook_task a env h attr = ([], [])"
    by (simp add: hook_task_def)
qed

theorem callHook_invoked_iff_rule_matches_witness:
  "\<not> hook_matches ex_env hook_other ''pods'' \<and>
   callHook (ex_plugin (Inr [hook_other])) ex_env hook_other ''pods'' = ([], None) \<and>
   hook_task (ex_plugin (Inr [hook_other])) ex_env hook_other ''pods'' = ([], []) \<and>
   hook_matches ex_env hook_policy ''pods'' \<and>
   snd (match_rules (Matches ex_env) ''pods'' (Rules hook_policy)) = [''nodes'', ''*''] \<and>
   fst (callHook (ex_plugin (Inr [hook_policy])) ex_env hook_policy ''pods'') =
     [ResolveEndpoint ''ns'' ''policy'',
      NewClient
        \<lparr>Host = ''policy'', APIPath = ''/ns'',
         TLS = \<lparr>CAData = [7], CertData = [1], KeyData = [2]\<rparr>,
         UserAgent = ''kube-apiserver-admission'', Timeout = 30000000000,
         ContentConfig = NegotiatedSerializerWrapper
           \<lparr>gv_Group = ''admission.k8s.io'', gv_Version = ''v1alpha1''\<rparr>\<rparr>,
      Post (RESTClient
        \<lparr>Host = ''policy'', APIPath = ''/ns'',
         TLS = \<lparr>CAData = [7], CertData = [1], KeyData = [2]\<rparr>,
         UserAgent = ''kube-apiserver-admission'', Timeout = 30000000000,
         ContentConfig = NegotiatedSerializerWrapper
           \<lparr>gv_Group = ''admission.k8s.io'', gv_Version = ''v1alpha1''\<rparr>\<rparr>)
        (NewAdmissionReview ''pods'')] \<and>
   hook_matches ex_env hook_gone ''pods'' \<and>
   fst (callHook (ex_plugin (Inr [hook_gone])) ex_env hook_gone ''pods'') =
     [ResolveEndpoint ''ns'' ''gone'']"
proof -
  have n: "\<not> hook_matches ex_env hook_other ''pods''"
    by code_simp
  have m: "hook_matches ex_env hook_policy ''pods''"
    by code_simp
  have g: "hook_matches ex_env hook_gone ''pods''"
    by code_simp
  have s: "takeWhile (\<lambda>r. \<not> Matches ex_env r ''pods'') (Rules hook_policy) @
     take 1 (dropWhile (\<lambda>r. \<not> Matches ex_env r ''pods'') (Rules hook_policy)) = [''nodes'', ''*'']"
    by code_simp
  have cp: "(hookClient (ex_plugin (Inr [hook_policy])) ex_env hook_policy
              :: string event list \<times> _) =
     ([ResolveEndpoint ''ns'' ''policy'',
       NewClient
        \<lparr>Host = ''policy'', APIPath = ''/ns'',
         TLS = \<lparr>CAData = [7], CertData = [1], KeyData = [2]\<rparr>,
         UserAgent = ''kube-apiserver-admission'', Timeout = 30000000000,
         ContentConfig = NegotiatedSerializerWrapper
           \<lparr>gv_Group = ''admission.k8s.io'', gv_Version = ''v1alpha1''\<rparr>\<rparr>],
      Inr (RESTClient
        \<lparr>Host = ''policy'', APIPath = ''/ns'',
         TLS = \<lparr>CAData = [7], CertData = [1], KeyData = [2]\<rparr>,
         UserAgent = ''kube-apiserver-admission'', Timeout = 30000000000,
         ContentConfig = NegotiatedSerializerWrapper
           \<lparr>gv_Group = ''admission.k8s.io'', gv_Version = ''v1alpha1''\<rparr>\<rparr>))"
    by (simp add: hookClient_def Let_def Second_def ex_plugin_def ex_resolver_def ex_env_def
          hook_policy_def ex_hook_def)
  have cg: "(hookClient (ex_plugin (Inr [hook_gone])) ex_env hook_gone
              :: string event list \<times> _) =
     ([ResolveEndpoint ''ns'' ''gone''], Inl (External ''no endpoints''))"
    by (simp add: hookClient_def Let_def ex_plugin_def ex_resolver_def
          hook_gone_def ex_hook_def)
  note t1 = callHook_invoked_iff_rule_matches
    [of ex_env hook_other "''pods''" "ex_plugin (Inr [hook_other])"]
  note t2 = callHook_invoked_iff_rule_matches
    [of ex_env hook_policy "''pods''" "ex_plugin (Inr [hook_policy])"]
  note t3 = callHook_invoked_iff_rule_matches
    [of ex_env hook_gone "''pods''" "ex_plugin (Inr [hook_gone])"]
  have o: "callHook (ex_plugin (Inr [hook_other])) ex_env hook_other ''pods'' = ([], None) \<and>
           hook_task (ex_plugin (Inr [hook_other])) ex_env hook_other ''pods'' = ([], [])"
    using n by (rule t1 [THEN conjunct2, THEN conjunct2, THEN conjunct2, THEN conjunct2,
                          THEN conjunct2, THEN conjunct2, THEN mp])
  have sp: "snd (match_rules (Matches ex_env) ''pods'' (Rules hook_policy)) = [''nodes'', ''*'']"
    using t2 [THEN conjunct2, THEN conjunct1] s by simp
  have ep: "fst (callHook (ex_plugin (Inr [hook_policy])) ex_env hook_policy ''pods'') =
        fst (hookClient (ex_plugin (Inr [hook_policy])) ex_env hook_policy) @
        (case snd (hookClient (ex_plugin (Inr [hook_policy])) ex_env hook_policy
                     :: string event list \<times> _) of
           Inl err \<Rightarrow> []
         | Inr client \<Rightarrow> [Post client (NewAdmissionReview ''pods'')])"
    using m by (rule t2 [THEN conjunct2, THEN conjunct2, THEN conjunct1, THEN mp])
  have eg: "fst (callHook (ex_plugin (Inr [hook_gone])) ex_env hook_gone ''pods'') =
        fst (hookClient (ex_plugin (Inr [hook_gone])) ex_env hook_gone) @
        (case snd (hookClient (ex_plugin (Inr [hook_gone])) ex_env hook_gone
                     :: string event list \<times> _) of
           Inl err \<Rightarrow> []
         | Inr client \<Rightarrow> [Post client (NewAdmissionReview ''pods'')])"
    using g by (rule t3 [THEN conjunct2, THEN conjunct2, THEN conjunct1, THEN mp])
  show ?thesis
    using n m g o sp ep eg unfolding cp cg by simp
qed

subsection \<open>The client of a hook\<close>

text \<open>
  Claim C8. When the endpoint of the hook resolves to \<open>u\<close>, \<open>hookClient\<close> asks
  \<open>rest.UnversionedRESTClientFor\<close> for a client with one configuration: the host and the
  path of \<open>u\<close>, the CA bundle of the hook, the certificate and key of the plugin, the user
  agent \<open>kube-apiserver-admission\<close>, a timeout of 30 seconds (30 000 000 000 ns) and the
  serializer of the plugin. Its result is the result of that call, and a \<open>callHook\<close> on a
  matching hook builds a client with this configuration and with no other.
\<close>

theorem hookClient_config:
  assumes "serviceResolver a (svc_Namespace (Service (ClientConfig h)))
             (svc_Name (Service (ClientConfig h))) = Inr u"
    and "cfg = \<lparr>Host = url_Host u, APIPath = url_Path u,
                TLS = \<lparr>CAData = CABundle (ClientConfig h),
                        CertData = clientCert a, KeyData = clientKey a\<rparr>,
                UserAgent = ''kube-apiserver-admission'',
                Timeout = 30000000000,
                ContentConfig = negotiatedSerializer a\<rparr>"
  shows "hookClient a env h =
           ([ResolveEndpoint (svc_Namespace (Service (ClientConfig h)))
               (svc_Name (Service (ClientConfig h))),
             NewClient cfg],
            UnversionedRESTClientFor env cfg) \<and>
         (hook_matches env h attr \<longrightarrow>
            (\<forall>c. NewClient c \<in> set (fst (callHook a env h attr)) \<longleftrightarrow> c = cfg))"
proof
  show hc: "hookClient a env h =
           ([ResolveEndpoint (svc_Namespace (Service (ClientConfig h)))
               (svc_Name (Service (ClientConfig h))),
             NewClient cfg],
            UnversionedRESTClientFor env cfg)"
    using assms by (simp add: hookClient_def Let_def Second_def)
  show "hook_matches env h attr \<longrightarrow>
          (\<forall>c. NewClient c \<in> set (fst (callHook a env h attr)) \<longleftrightarrow> c = cfg)"
  proof
    assume m: "hook_matches env h attr"
    have "fst (callHook a env h attr) = fst (hookClient a env h) \<or>
          (\<exists>client. fst (callHook a env h attr) =
             fst (hookClient a env h) @ [Post client (NewAdmissionReview attr)])"
      using m
      by (simp add: callHook_def hook_matches_def Let_def case_prod_beta
               split: sum.splits option.splits)
    then show "\<forall>c. NewClient c \<in> set (fst (callHook a env h attr)) \<longleftrightarrow> c = cfg"
      using hc by auto
  qed
qed

theorem hookClient_config_witness:
  "serviceResolver (ex_plugin (Inr [hook_quota])) (svc_Namespace (Service (ClientConfig hook_quota)))
     (svc_Name (Service (ClientConfig hook_quota))) = Inr \<lparr>url_Host = ''quota'', url_Path = ''/ns''\<rparr> \<and>
   hook_matches ex_env hook_quota ''pods'' \<and>
   fst (hookClient (ex_plugin (Inr [hook_quota])) ex_env hook_quota :: string event list \<times> _) =
     [ResolveEndpoint ''ns'' ''quota'',
      NewClient \<lparr>Host = ''quota'', APIPath = ''/ns'',
                 TLS = \<lparr>CAData = [7], CertData = [1], KeyData = [2]\<rparr>,
                 UserAgent = ''kube-apiserver-admission'',
                 Timeout = 30000000000,
                 ContentConfig = NegotiatedSerializerWrapper
                   \<lparr>gv_Group = ''admission.k8s.io'', gv_Version = ''v1alpha1''\<rparr>\<rparr>] \<and>
   NewClient \<lparr>Host = ''quota'', APIPath = ''/ns'',
              TLS = \<lparr>CAData = [7], CertData = [1], KeyData = [2]\<rparr>,
              UserAgent = ''kube-apiserver-admission'',
              Timeout = 30000000000,
              ContentConfig = NegotiatedSerializerWrapper
                \<lparr>gv_Group = ''admission.k8s.io'', gv_Version = ''v1alpha1''\<rparr>\<rparr>
     \<in> set (fst (callHook (ex_plugin (Inr [hook_quota])) ex_env hook_quota ''pods''))"
proof -
  have r: "serviceResolver (ex_plugin (Inr [hook_quota])) (svc_Namespace (Service (ClientConfig hook_quota)))
     (svc_Name (Service (ClientConfig hook_quota))) = Inr \<lparr>url_Host = ''quota'', url_Path = ''/ns''\<rparr>"
    by (simp add: ex_plugin_def ex_resolver_def hook_quota_def ex_hook_def)
  have m: "hook_matches ex_env hook_quota ''pods''"
    by code_simp
  have c: "\<lparr>Host = ''quota'', APIPath = ''/ns'',
              TLS = \<lparr>CAData = [7], CertData = [1], KeyData = [2]\<rparr>,
              UserAgent = ''kube-apiserver-admission'',
              Timeout = 30000000000,
              ContentConfig = NegotiatedSerializerWrapper
                \<lparr>gv_Group = ''admission.k8s.io'', gv_Version = ''v1alpha1''\<rparr>\<rparr> =
       \<lparr>Host = url_Host \<lparr>url_Host = ''quota'', url_Path = ''/ns''\<rparr>,
        APIPath = url_Path \<lparr>url_Host = ''quota'', url_Path = ''/ns''\<rparr>,
        TLS = \<lparr>CAData = CABundle (ClientConfig hook_quota),
                CertData = clientCert (ex_plugin (Inr [hook_quota])),
                KeyData = clientKey (ex_plugin (Inr [hook_quota]))\<rparr>,
        UserAgent = ''kube-apiserver-admission'',
        Timeout = 30000000000,
        ContentConfig = negotiatedSerializer (ex_plugin (Inr [hook_quota]))\<rparr>"
    by (simp add: ex_plugin_def hook_quota_def ex_hook_def)
  have n: "svc_Namespace (Service (ClientConfig hook_quota)) = ''ns'' \<and>
           svc_Name (Service (ClientConfig hook_quota)) = ''quota''"
    by (simp add: hook_quota_def ex_hook_def)
  show ?thesis
    using r m n hookClient_config [OF r c, of ex_env "''pods''"] by simp
qed


subsection \<open>The nil results of callHook\<close>

text \<open>
  Claim C9. \<open>callHook\<close> returns nil in two cases and in no other: no rule of the hook
  matches the request, or the hook was called and its response has \<open>Allowed\<close> set. In
  both the goroutine sends nothing down the channel, which is all the aggregation of
  \<open>Admit\<close> reads. A non-nil result is a call failure (an \<open>ErrCallingWebhook\<close> for
  this hook) or a denial (the error for a denial without explanation, or a status error).
\<close>

theorem callHook_nil_results:
  "(snd (callHook a env h attr) = None \<longleftrightarrow>
      \<not> hook_matches env h attr \<or>
      (\<exists>client st. snd (hookClient a env h) = Inr client \<and>
         Do env client (NewAdmissionReview attr) = Inr st \<and> Allowed st)) \<and>
   (snd (callHook a env h attr) = None \<longrightarrow> snd (hook_task a env h attr) = []) \<and>
   (\<forall>e. snd (callHook a env h attr) = Some e \<longrightarrow>
      (\<exists>err. e = ErrCallingWebhook (Name h) (Some err)) \<or>
      e = Errorf ''admission webhook %q denied the request without explanation''
            [ArgString (Name h)] \<or>
      (\<exists>res. e = StatusError res))"
proof (intro conjI allI impI)
  show "snd (callHook a env h attr) = None \<longleftrightarrow>
      \<not> hook_matches env h attr \<or>
      (\<exists>client st. snd (hookClient a env h) = Inr client \<and>
         Do env client (NewAdmissionReview attr) = Inr st \<and> Allowed st)"
  proof (cases "hook_matches env h attr")
    case False
    then show ?thesis
      by (simp add: callHook_no_match)
  next
    case True
    then show ?thesis
      by (auto simp: callHook_def hook_matches_def Let_def case_prod_beta
               split: sum.splits option.splits)
  qed
next
  assume "snd (callHook a env h attr) = None"
  then show "snd (hook_task a env h attr) = []"
    by (simp add: hook_task_sends)
next
  fix e
  assume "snd (callHook a env h attr) = Some e"
  then show "(\<exists>err. e = ErrCallingWebhook (Name h) (Some err)) \<or>
      e = Errorf ''admission webhook %q denied the request without explanation''
            [ArgString (Name h)] \<or>
      (\<exists>res. e = StatusError res)"
    by (rule callHook_error_cases)
qed

theorem callHook_nil_results_witness:
  "\<not> hook_matches ex_env hook_other ''pods'' \<and>
   snd (callHook (ex_plugin (Inr [])) ex_env hook_other ''pods'') = None \<and>
   snd (hook_task (ex_plugin (Inr [])) ex_env hook_other ''pods'') = [] \<and>
   hook_matches ex_env hook_fine ''pods'' \<and>
   snd (callHook (ex_plugin (Inr [])) ex_env hook_fine ''pods'') = None \<and>
   snd (hook_task (ex_plugin (Inr [])) ex_env hook_fine ''pods'') = [] \<and>
   snd (callHook (ex_plugin (Inr [])) ex_env hook_down ''pods'') =
     Some (ErrCallingWebhook ''C'' (Some (External ''connection refused'')))"
proof -
  have n: "\<not> hook_matches ex_env hook_other ''pods''"
    by code_simp
  have m: "hook_matches ex_env hook_fine ''pods''"
    by code_simp
  have c: "\<exists>client st. snd (hookClient (ex_plugin (Inr [])) ex_env hook_fine) = Inr client \<and>
         Do ex_env client (NewAdmissionReview ''pods'') = Inr st \<and> Allowed st"
    by (simp add: hookClient_def Let_def ex_plugin_def ex_resolver_def ex_env_def ex_answer_def
          hook_fine_def ex_hook_def)
  have d: "snd (callHook (ex_plugin (Inr [])) ex_env hook_down ''pods'') =
     Some (ErrCallingWebhook ''C'' (Some (External ''connection refused'')))"
    by code_simp
  show ?thesis
    using n m c d
      callHook_nil_results [of "ex_plugin (Inr [])" ex_env hook_other "''pods''"]
      callHook_nil_results [of "ex_plugin (Inr [])" ex_env hook_fine "''pods''"]
      callHook_nil_results [of "ex_plugin (Inr [])" ex_env hook_down "''pods''"]
    by simp
qed

subsection \<open>A denial without explanation\<close>

text \<open>
  Claim C4. When a matching hook is called and its response has \<open>Allowed\<close> unset and
  no \<open>Result\<close>, \<open>callHook\<close> returns the error
  \<open>admission webhook %q denied the request without explanation\<close> formatted with
  the name of the hook. That error is neither an \<open>ErrCallingWebhook\<close> nor a status error,
  the goroutine sends it down the channel, and \<open>Admit\<close> on a list holding the hook
  returns a non-nil error in every completion order.
\<close>

theorem callHook_denied_without_explanation:
  assumes "hook_matches env h attr"
    and "snd (hookClient a env h) = Inr client"
    and "Do env client (NewAdmissionReview attr) = Inr st"
    and "\<not> Allowed st"
    and "Result st = None"
    and "e = Errorf ''admission webhook %q denied the request without explanation''
               [ArgString (Name h)]"
  shows "snd (callHook a env h attr) = Some e \<and>
         \<not> is_ErrCallingWebhook e \<and> \<not> is_StatusError e \<and>
         snd (hook_task a env h attr) = [e] \<and>
         (hookSource a = Inr hooks \<and> h \<in> set hooks \<and> completion_order (length hooks) sched \<longrightarrow>
            (\<exists>evs e'. Admit a env attr sched = Some (evs, Some e')))"
proof (intro conjI impI)
  show r: "snd (callHook a env h attr) = Some e"
    using callHook_no_explanation [OF assms(1-5)] assms(6) by simp
  show "\<not> is_ErrCallingWebhook e" and "\<not> is_StatusError e"
    using assms(6) by simp_all
  then show s: "snd (hook_task a env h attr) = [e]"
    using r by (simp add: hook_task_sends)
  assume "hookSource a = Inr hooks \<and> h \<in> set hooks \<and> completion_order (length hooks) sched"
  then have l: "hookSource a = Inr hooks" and "h \<in> set hooks"
    and o: "completion_order (length hooks) sched"
    by simp_all
  then obtain k where k: "k < length hooks" "hooks ! k = h"
    by (auto simp: in_set_conv_nth)
  then have "k \<in> set sched"
    using o by (simp add: completion_order_def)
  then have "e \<in> set (concat (map (\<lambda>i. snd (hook_task a env (hooks ! i) attr)) sched))"
    using k s by (auto intro: bexI [where x = k])
  then obtain e' es where
    "concat (map (\<lambda>i. snd (hook_task a env (hooks ! i) attr)) sched) = e' # es"
    by (cases "concat (map (\<lambda>i. snd (hook_task a env (hooks ! i) attr)) sched)") auto
  then show "\<exists>evs e'. Admit a env attr sched = Some (evs, Some e')"
    using Admit_result [OF o l, of env attr] by auto
qed

theorem callHook_denied_without_explanation_witness:
  "hook_matches ex_env hook_mute ''pods'' \<and>
   snd (hookClient (ex_plugin (Inr [hook_down, hook_mute])) ex_env hook_mute
          :: string event list \<times> _) =
     Inr (RESTClient
       \<lparr>Host = ''mute'', APIPath = ''/ns'',
        TLS = \<lparr>CAData = [7], CertData = [1], KeyData = [2]\<rparr>,
        UserAgent = ''kube-apiserver-admission'', Timeout = 30000000000,
        ContentConfig = NegotiatedSerializerWrapper
          \<lparr>gv_Group = ''admission.k8s.io'', gv_Version = ''v1alpha1''\<rparr>\<rparr>) \<and>
   Do ex_env (RESTClient
       \<lparr>Host = ''mute'', APIPath = ''/ns'',
        TLS = \<lparr>CAData = [7], CertData = [1], KeyData = [2]\<rparr>,
        UserAgent = ''kube-apiserver-admission'', Timeout = 30000000000,
        ContentConfig = NegotiatedSerializerWrapper
          \<lparr>gv_Group = ''admission.k8s.io'', gv_Version = ''v1alpha1''\<rparr>\<rparr>)
      (NewAdmissionReview ''pods'') = Inr \<lparr>Allowed = False, Result = None\<rparr> \<and>
   completion_order 2 [1, 0] \<and>
   snd (callHook (ex_plugin (Inr [hook_down, hook_mute])) ex_env hook_mute ''pods'') =
     Some (Errorf ''admission webhook %q denied the request without explanation''
             [ArgString ''F'']) \<and>
   snd (hook_task (ex_plugin (Inr [hook_down, hook_mute])) ex_env hook_mute ''pods'') =
     [Errorf ''admission webhook %q denied the request without explanation''
        [ArgString ''F'']] \<and>
   (\<exists>evs e'. Admit (ex_plugin (Inr [hook_down, hook_mute])) ex_env ''pods'' [1, 0] =
      Some (evs, Some e'))"
proof -
  have m: "hook_matches ex_env hook_mute ''pods''"
    by code_simp
  have c: "snd (hookClient (ex_plugin (Inr [hook_down, hook_mute])) ex_env hook_mute
          :: string event list \<times> _) =
     Inr (RESTClient
       \<lparr>Host = ''mute'', APIPath = ''/ns'',
        TLS = \<lparr>CAData = [7], CertData = [1], KeyData = [2]\<rparr>,
        UserAgent = ''kube-apiserver-admission'', Timeout = 30000000000,
        ContentConfig = NegotiatedSerializerWrapper
          \<lparr>gv_Group = ''admission.k8s.io'', gv_Version = ''v1alpha1''\<rparr>\<rparr>)"
    by (simp add: hookClient_def Let_def Second_def ex_plugin_def ex_resolver_def ex_env_def
          hook_mute_def ex_hook_def)
  have d: "Do ex_env (RESTClient
       \<lparr>Host = ''mute'', APIPath = ''/ns'',
        TLS = \<lparr>CAData = [7], CertData = [1], KeyData = [2]\<rparr>,
        UserAgent = ''kube-apiserver-admission'', Timeout = 30000000000,
        ContentConfig = NegotiatedSerializerWrapper
          \<lparr>gv_Group = ''admission.k8s.io'', gv_Version = ''v1alpha1''\<rparr>\<rparr>)
      (NewAdmissionReview ''pods'') = Inr \<lparr>Allowed = False, Result = None\<rparr>"
    by (simp add: ex_env_def ex_answer_def)
  have o: "completion_order 2 [1, 0]"
    by (auto simp: completion_order_def)
  have l: "hookSource (ex_plugin (Inr [hook_down, hook_mute])) = Inr [hook_down, hook_mute] \<and>
           hook_mute \<in> set [hook_down, hook_mute] \<and>
           completion_order (length [hook_down, hook_mute]) [1, 0]"
    by (auto simp: ex_plugin_def completion_order_def)
  have n: "Name hook_mute = ''F''"
    by (simp add: hook_mute_def ex_hook_def)
  show ?thesis
    using m c d o l n
      callHook_denied_without_explanation [OF m c d _ _ refl,
        of "[hook_down, hook_mute]" "[1, 0]"]
    by simp
qed


subsection \<open>Failing open\<close>

text \<open>
  Claim C2. A call of a matching hook that fails in the infrastructure (the endpoint does
  not resolve, the client cannot be built, or the request returns an error) makes
  \<open>callHook\<close> return an \<open>ErrCallingWebhook\<close> for that hook. A goroutine whose
  \<open>callHook\<close> returns an \<open>ErrCallingWebhook\<close> sends nothing down the channel, so in
  every completion order no \<open>ErrCallingWebhook\<close> is among the collected errors, and
  \<open>Admit\<close> returns nil when every hook of the list returns nil or an
  \<open>ErrCallingWebhook\<close>.
\<close>

theorem Admit_fails_open:
  assumes "hookSource a = Inr hooks"
    and "completion_order (length hooks) sched"
  shows "(\<forall>h err.
            hook_matches env h attr \<and>
            (serviceResolver a (svc_Namespace (Service (ClientConfig h)))
               (svc_Name (Service (ClientConfig h))) = Inl err \<or>
             snd (hookClient a env h) = Inl err \<or>
             (\<exists>client. snd (hookClient a env h) = Inr client \<and>
                Do env client (NewAdmissionReview attr) = Inl err)) \<longrightarrow>
            snd (callHook a env h attr) = Some (ErrCallingWebhook (Name h) (Some err))) \<and>
         (\<forall>h e. snd (callHook a env h attr) = Some e \<and> is_ErrCallingWebhook e \<longrightarrow>
            snd (hook_task a env h attr) = []) \<and>
         (\<exists>evs errs. fan_out a env hooks attr sched = Some (evs, errs) \<and>
            (\<forall>e\<in>set errs. \<not> is_ErrCallingWebhook e)) \<and>
         ((\<forall>h\<in>set hooks. case snd (callHook a env h attr) of
                             None \<Rightarrow> True | Some e \<Rightarrow> is_ErrCallingWebhook e) \<longrightarrow>
            (\<exists>evs. Admit a env attr sched = Some (evs, None)))"
proof (intro conjI allI impI)
  fix h err
  assume f: "hook_matches env h attr \<and>
            (serviceResolver a (svc_Namespace (Service (ClientConfig h)))
               (svc_Name (Service (ClientConfig h))) = Inl err \<or>
             snd (hookClient a env h) = Inl err \<or>
             (\<exists>client. snd (hookClient a env h) = Inr client \<and>
                Do env client (NewAdmissionReview attr) = Inl err))"
  then have m: "hook_matches env h attr"
    by simp
  from f consider
      (resolve) "serviceResolver a (svc_Namespace (Service (ClientConfig h)))
               (svc_Name (Service (ClientConfig h))) = Inl err"
    | (client) "snd (hookClient a env h) = Inl err"
    | (transport) client where "snd (hookClient a env h) = Inr client"
        and "Do env client (NewAdmissionReview attr) = Inl err"
    by blast
  then show "snd (callHook a env h attr) = Some (ErrCallingWebhook (Name h) (Some err))"
  proof cases
    case resolve
    then show ?thesis
      using callHook_client_error [OF m hookClient_resolve_error] by simp
  next
    case client
    then show ?thesis
      using callHook_client_error [OF m] by simp
  next
    case transport
    then show ?thesis
      using callHook_transport_error [OF m] by simp
  qed
next
  fix h e
  assume "snd (callHook a env h attr) = Some e \<and> is_ErrCallingWebhook e"
  then show "snd (hook_task a env h attr) = []"
    by (simp add: hook_task_sends)
next
  have d: "distinct sched" and s: "set sched \<subseteq> {0..<length hooks}"
    using assms(2) by (simp_all add: completion_order_def)
  have "\<forall>e\<in>set (concat (map (\<lambda>i. snd (hook_task a env (hooks ! i) attr)) sched)).
          \<not> is_ErrCallingWebhook e"
    by (auto simp: hook_task_sends split: option.splits if_splits)
  then show "\<exists>evs errs. fan_out a env hooks attr sched = Some (evs, errs) \<and>
            (\<forall>e\<in>set errs. \<not> is_ErrCallingWebhook e)"
    using fan_out_eq [OF d s, of a env attr] by simp
next
  assume q: "\<forall>h\<in>set hooks. case snd (callHook a env h attr) of
                             None \<Rightarrow> True | Some e \<Rightarrow> is_ErrCallingWebhook e"
  have "concat (map (\<lambda>i. snd (hook_task a env (hooks ! i) attr)) sched) = []"
  proof (rule concat_sends_Nil)
    fix i
    assume "i \<in> set sched"
    then have "hooks ! i \<in> set hooks"
      using assms(2) by (simp add: completion_order_def)
    with q show "snd (hook_task a env (hooks ! i) attr) = []"
      by (auto simp: hook_task_sends split: option.splits)
  qed
  then show "\<exists>evs. Admit a env attr sched = Some (evs, None)"
    by (rule Admit_nil [OF assms(2,1)])
qed

theorem Admit_fails_open_witness:
  "hookSource (ex_plugin (Inr [hook_gone, hook_noca, hook_down, hook_fine, hook_other])) =
     Inr [hook_gone, hook_noca, hook_down, hook_fine, hook_other] \<and>
   completion_order 5 [2, 0, 4, 1, 3] \<and>
   snd (callHook (ex_plugin (Inr [hook_gone, hook_noca, hook_down, hook_fine, hook_other]))
          ex_env hook_gone ''pods'') =
     Some (ErrCallingWebhook ''D'' (Some (External ''no endpoints''))) \<and>
   snd (callHook (ex_plugin (Inr [hook_gone, hook_noca, hook_down, hook_fine, hook_other]))
          ex_env hook_noca ''pods'') =
     Some (ErrCallingWebhook ''E'' (Some (External ''no CA''))) \<and>
   snd (callHook (ex_plugin (Inr [hook_gone, hook_noca, hook_down, hook_fine, hook_other]))
          ex_env hook_down ''pods'') =
     Some (ErrCallingWebhook ''C'' (Some (External ''connection refused''))) \<and>
   snd (hook_task (ex_plugin (Inr [hook_gone, hook_noca, hook_down, hook_fine, hook_other]))
          ex_env hook_down ''pods'') = [] \<and>
   (\<exists>evs. Admit (ex_plugin (Inr [hook_gone, hook_noca, hook_down, hook_fine, hook_other]))
            ex_env ''pods'' [2, 0, 4, 1, 3] = Some (evs, None))"
proof -
  define a where "a = ex_plugin (Inr [hook_gone, hook_noca, hook_down, hook_fine, hook_other])"
  have l: "hookSource a = Inr [hook_gone, hook_noca, hook_down, hook_fine, hook_other]"
    by (simp add: a_def ex_plugin_def)
  have o: "completion_order 5 [2, 0, 4, 1, 3]"
    by (auto simp: completion_order_def)
  have o': "completion_order (length [hook_gone, hook_noca, hook_down, hook_fine, hook_other])
              [2, 0, 4, 1, 3]"
    by (auto simp: completion_order_def)
  have m: "hook_matches ex_env hook_gone ''pods''" "hook_matches ex_env hook_noca ''pods''"
    "hook_matches ex_env hook_down ''pods''"
    by code_simp+
  have r: "serviceResolver a (svc_Namespace (Service (ClientConfig hook_gone)))
               (svc_Name (Service (ClientConfig hook_gone))) = Inl (External ''no endpoints'')"
    by (simp add: a_def ex_plugin_def ex_resolver_def hook_gone_def ex_hook_def)
  have c: "snd (hookClient a ex_env hook_noca :: string event list \<times> _) = Inl (External ''no CA'')"
    by (simp add: a_def hookClient_def Let_def ex_plugin_def ex_resolver_def ex_env_def
          hook_noca_def ex_hook_def)
  have t: "\<exists>client. snd (hookClient a ex_env hook_down :: string event list \<times> _) = Inr client \<and>
             Do ex_env client (NewAdmissionReview ''pods'') = Inl (External ''connection refused'')"
    by (simp add: a_def hookClient_def Let_def ex_plugin_def ex_resolver_def ex_env_def
          ex_answer_def hook_down_def ex_hook_def)
  have n: "Name hook_gone = ''D''" "Name hook_noca = ''E''" "Name hook_down = ''C''"
    by (simp_all add: hook_gone_def hook_noca_def hook_down_def ex_hook_def)
  have f: "snd (callHook a ex_env hook_fine ''pods'') = None"
    "snd (callHook a ex_env hook_other ''pods'') = None"
    unfolding a_def by code_simp+
  note th = Admit_fails_open [OF l o', of ex_env "''pods''"]
  note th1 = th [THEN conjunct1, rule_format]
  note th2 = th [THEN conjunct2, THEN conjunct1, rule_format]
  note th4 = th [THEN conjunct2, THEN conjunct2, THEN conjunct2, THEN mp]
  have 1: "snd (callHook a ex_env hook_gone ''pods'') =
     Some (ErrCallingWebhook ''D'' (Some (External ''no endpoints'')))"
    using th1 [of hook_gone "External ''no endpoints''"] m(1) r n(1) by simp
  have 2: "snd (callHook a ex_env hook_noca ''pods'') =
     Some (ErrCallingWebhook ''E'' (Some (External ''no CA'')))"
    using th1 [of hook_noca "External ''no CA''"] m(2) c n(2) by simp
  have 3: "snd (callHook a ex_env hook_down ''pods'') =
     Some (ErrCallingWebhook ''C'' (Some (External ''connection refused'')))"
    using th1 [of hook_down "External ''connection refused''"] m(3) t n(3) by simp
  have 4: "snd (hook_task a ex_env hook_down ''pods'') = []"
    using th2 [of hook_down] 3 by simp
  have q: "\<forall>h\<in>set [hook_gone, hook_noca, hook_down, hook_fine, hook_other].
             case snd (callHook a ex_env h ''pods'') of
               None \<Rightarrow> True | Some e \<Rightarrow> is_ErrCallingWebhook e"
    using 1 2 3 f by simp
  have 5: "\<exists>evs. Admit a ex_env ''pods'' [2, 0, 4, 1, 3] = Some (evs, None)"
    using q by (rule th4)
  show ?thesis
    using l o 1 2 3 4 5 unfolding a_def by simp
qed


subsection \<open>The capacity of the error channel\<close>

text \<open>
  Claim C10. The channel is made with the number of listed hooks as its capacity, and a
  goroutine sends at most one value. So in every completion order each send finds room:
  after any number of goroutines have finished the channel holds at most that many
  values, all goroutines reach their end, \<open>wg.Wait\<close> returns and \<open>Admit\<close>
  returns a result. The errors collected from the channel are at most as many as the hooks.
\<close>

theorem Admit_never_blocks:
  assumes "hookSource a = Inr hooks"
    and "completion_order (length hooks) sched"
  shows "cap (make_chan (length hooks)) = length hooks \<and>
         (\<forall>h. length (snd (hook_task a env h attr)) \<le> 1) \<and>
         (\<forall>n. \<exists>evs ch.
            run_tasks a env hooks attr (take n sched) ([], make_chan (length hooks)) =
              Some (evs, ch) \<and> length (buf ch) \<le> n) \<and>
         (\<exists>evs errs. fan_out a env hooks attr sched = Some (evs, errs) \<and>
            length errs \<le> length hooks) \<and>
         (\<exists>evs r. Admit a env attr sched = Some (evs, r))"
proof (intro conjI allI impI)
  show "cap (make_chan (length hooks)) = length hooks"
    by (simp add: make_chan_def)
  show "length (snd (hook_task a env h attr)) \<le> 1" for h
    by (rule hook_task_sends_length)
  have d: "distinct sched" and s: "set sched \<subseteq> {0..<length hooks}"
    using assms(2) by (simp_all add: completion_order_def)
  have n: "length sched \<le> length hooks"
    using sched_length [OF d s] .
  have c: "length (concat (map (\<lambda>i. snd (hook_task a env (hooks ! i) attr)) is)) \<le> length is"
    for "is"
  proof (induction "is")
    case Nil
    show ?case by simp
  next
    case (Cons i "is")
    then show ?case
      using hook_task_sends_length [of a env "hooks ! i" attr] by simp
  qed
  show "\<exists>evs ch.
            run_tasks a env hooks attr (take n sched) ([], make_chan (length hooks)) =
              Some (evs, ch) \<and> length (buf ch) \<le> n" for n
  proof -
    have "length (buf (make_chan (length hooks))) + length (take n sched)
                 \<le> cap (make_chan (length hooks))"
      using n by (simp add: make_chan_def)
    from run_tasks_Some [OF this, of a env hooks attr "[]"] show ?thesis
      using c [of "take n sched"] by (simp add: make_chan_def)
  qed
  show "\<exists>evs errs. fan_out a env hooks attr sched = Some (evs, errs) \<and>
            length errs \<le> length hooks"
    using fan_out_eq [OF d s, of a env attr] c [of sched] n by simp
  show "\<exists>evs r. Admit a env attr sched = Some (evs, r)"
    using Admit_result [OF assms(2,1), of env attr] by blast
qed

theorem Admit_never_blocks_witness:
  "hookSource (ex_plugin (Inr [hook_quota, hook_policy, hook_mute])) =
     Inr [hook_quota, hook_policy, hook_mute] \<and>
   completion_order (length [hook_quota, hook_policy, hook_mute]) [2, 0, 1] \<and>
   (\<exists>evs ch. run_tasks (ex_plugin (Inr [hook_quota, hook_policy, hook_mute])) ex_env
               [hook_quota, hook_policy, hook_mute] ''pods'' (take 2 [2, 0, 1])
               ([], make_chan (length [hook_quota, hook_policy, hook_mute])) =
               Some (evs, ch) \<and> length (buf ch) \<le> 2) \<and>
   (\<exists>evs errs. fan_out (ex_plugin (Inr [hook_quota, hook_policy, hook_mute])) ex_env
               [hook_quota, hook_policy, hook_mute] ''pods'' [2, 0, 1] = Some (evs, errs) \<and>
               length errs \<le> length [hook_quota, hook_policy, hook_mute]) \<and>
   (\<exists>evs r. Admit (ex_plugin (Inr [hook_quota, hook_policy, hook_mute])) ex_env ''pods''
               [2, 0, 1] = Some (evs, r))"
proof -
  have l: "hookSource (ex_plugin (Inr [hook_quota, hook_policy, hook_mute])) =
     Inr [hook_quota, hook_policy, hook_mute]"
    by (simp add: ex_plugin_def)
  have o: "completion_order (length [hook_quota, hook_policy, hook_mute]) [2, 0, 1]"
    by (auto simp: completion_order_def)
  note th = Admit_never_blocks [OF l o, of ex_env "''pods''"]
  note th3 = th [THEN conjunct2, THEN conjunct2, THEN conjunct1, THEN spec, of 2]
  note th4 = th [THEN conjunct2, THEN conjunct2, THEN conjunct2, THEN conjunct1]
  note th5 = th [THEN conjunct2, THEN conjunct2, THEN conjunct2, THEN conjunct2]
  show ?thesis
    by (intro conjI) (rule l o th3 th4 th5)+
qed


subsection \<open>Which rejection is returned\<close>

text \<open>
  Claim C1 says that with several rejecting hooks \<open>Admit\<close> returns the rejection of the
  hook listed first, whatever the completion order. The code returns \<open>errs[0]\<close>, the
  value that reached the channel first. With \<open>hook_quota\<close> listed before
  \<open>hook_policy\<close>, both rejecting a request for pods, \<open>Admit\<close> returns the rejection
  of \<open>hook_quota\<close> when that goroutine finishes first and the rejection of
  \<open>hook_policy\<close> when the other one does.
\<close>

theorem Admit_configuration_order_counterexample:
  "hookSource (ex_plugin (Inr [hook_quota, hook_policy])) = Inr [hook_quota, hook_policy] \<and>
   completion_order 2 [0, 1] \<and>
   completion_order 2 [1, 0] \<and>
   snd (callHook (ex_plugin (Inr [hook_quota, hook_policy])) ex_env hook_quota ''pods'') =
     Some (StatusError \<lparr>status_Reason = ''Forbidden'', status_Message = ''quota exceeded''\<rparr>) \<and>
   snd (callHook (ex_plugin (Inr [hook_quota, hook_policy])) ex_env hook_policy ''pods'') =
     Some (StatusError \<lparr>status_Reason = ''Invalid'', status_Message = ''label missing''\<rparr>) \<and>
   map_option snd (Admit (ex_plugin (Inr [hook_quota, hook_policy])) ex_env ''pods'' [0, 1]) =
     Some (Some (StatusError
       \<lparr>status_Reason = ''Forbidden'', status_Message = ''quota exceeded''\<rparr>)) \<and>
   map_option snd (Admit (ex_plugin (Inr [hook_quota, hook_policy])) ex_env ''pods'' [1, 0]) =
     Some (Some (StatusError
       \<lparr>status_Reason = ''Invalid'', status_Message = ''label missing''\<rparr>))"
proof (intro conjI)
  show "hookSource (ex_plugin (Inr [hook_quota, hook_policy])) = Inr [hook_quota, hook_policy]"
    by (simp add: ex_plugin_def)
  show "completion_order 2 [0, 1]" and "completion_order 2 [1, 0]"
    by (auto simp: completion_order_def)
  show "snd (callHook (ex_plugin (Inr [hook_quota, hook_policy])) ex_env hook_quota ''pods'') =
     Some (StatusError \<lparr>status_Reason = ''Forbidden'', status_Message = ''quota exceeded''\<rparr>)"
    by code_simp
  show "snd (callHook (ex_plugin (Inr [hook_quota, hook_policy])) ex_env hook_policy ''pods'') =
     Some (StatusError \<lparr>status_Reason = ''Invalid'', status_Message = ''label missing''\<rparr>)"
    by code_simp
  show "map_option snd (Admit (ex_plugin (Inr [hook_quota, hook_policy])) ex_env ''pods'' [0, 1]) =
     Some (Some (StatusError
       \<lparr>status_Reason = ''Forbidden'', status_Message = ''quota exceeded''\<rparr>))"
    by code_simp
  show "map_option snd (Admit (ex_plugin (Inr [hook_quota, hook_policy])) ex_env ''pods'' [1, 0]) =
     Some (Some (StatusError
       \<lparr>status_Reason = ''Invalid'', status_Message = ''label missing''\<rparr>))"
    by code_simp
qed

text \<open>
  Claim C1, amended. \<open>Admit\<close> returns the rejection of the rejecting hook whose
  goroutine finishes first: when the goroutines that finish before the one of hook \<open>k\<close>
  send nothing and that one sends \<open>e\<close>, \<open>Admit\<close> returns \<open>e\<close>. Two completion
  orders in which the same rejecting hook finishes first among the rejecting ones give the
  same error.
\<close>

theorem Admit_first_completed_rejection:
  assumes "hookSource a = Inr hooks"
    and "completion_order (length hooks) sched"
    and "sched = before @ k # after"
    and "\<forall>j\<in>set before. snd (hook_task a env (hooks ! j) attr) = []"
    and "snd (hook_task a env (hooks ! k) attr) = [e]"
  shows "\<exists>evs. Admit a env attr sched = Some (evs, Some e)"
proof -
  let ?f = "\<lambda>i. snd (hook_task a env (hooks ! i) attr)"
  have "concat (map ?f (before @ k # after)) = e # [] @ concat (map ?f after)"
    by (rule concat_sends_first) (use assms(4,5) in simp_all)
  then have c: "concat (map ?f sched) = e # concat (map ?f after)"
    by (simp only: assms(3) append_Nil)
  show ?thesis
    by (rule Admit_first [OF assms(2,1) c])
qed

theorem Admit_first_completed_rejection_witness:
  "hookSource (ex_plugin (Inr [hook_quota, hook_down, hook_policy])) =
     Inr [hook_quota, hook_down, hook_policy] \<and>
   completion_order (length [hook_quota, hook_down, hook_policy]) [1, 2, 0] \<and>
   snd (hook_task (ex_plugin (Inr [hook_quota, hook_down, hook_policy])) ex_env
          ([hook_quota, hook_down, hook_policy] ! 1) ''pods'') = [] \<and>
   snd (hook_task (ex_plugin (Inr [hook_quota, hook_down, hook_policy])) ex_env
          ([hook_quota, hook_down, hook_policy] ! 2) ''pods'') =
     [StatusError \<lparr>status_Reason = ''Invalid'', status_Message = ''label missing''\<rparr>] \<and>
   (\<exists>evs. Admit (ex_plugin (Inr [hook_quota, hook_down, hook_policy])) ex_env ''pods''
            [1, 2, 0] =
      Some (evs, Some (StatusError
        \<lparr>status_Reason = ''Invalid'', status_Message = ''label missing''\<rparr>)))"
proof -
  have l: "hookSource (ex_plugin (Inr [hook_quota, hook_down, hook_policy])) =
     Inr [hook_quota, hook_down, hook_policy]"
    by (simp add: ex_plugin_def)
  have o: "completion_order (length [hook_quota, hook_down, hook_policy]) [1, 2, 0]"
    by (auto simp: completion_order_def)
  have s: "[1, 2, 0] = [1] @ 2 # [0 :: nat]"
    by simp
  have b: "snd (hook_task (ex_plugin (Inr [hook_quota, hook_down, hook_policy])) ex_env
          ([hook_quota, hook_down, hook_policy] ! 1) ''pods'') = []"
    by code_simp
  then have b': "\<forall>j\<in>set [1]. snd (hook_task (ex_plugin (Inr [hook_quota, hook_down, hook_policy]))
          ex_env ([hook_quota, hook_down, hook_policy] ! j) ''pods'') = []"
    by simp
  have k: "snd (hook_task (ex_plugin (Inr [hook_quota, hook_down, hook_policy])) ex_env
          ([hook_quota, hook_down, hook_policy] ! 2) ''pods'') =
     [StatusError \<lparr>status_Reason = ''Invalid'', status_Message = ''label missing''\<rparr>]"
    by code_simp
  show ?thesis
    by (intro conjI) (rule l o b k Admit_first_completed_rejection [OF l o s b' k])+
qed


subsection \<open>Failing closed\<close>

text \<open>
  Claim C3 says that when a matching hook is called and answers \<open>Allowed=false\<close> with
  a \<open>Result\<close>, \<open>Admit\<close> returns an error built from the \<open>Result\<close> of that hook,
  whatever the other hooks do. \<open>Admit\<close> returns one error only, \<open>errs[0]\<close>. Here
  \<open>hook_policy\<close> is called and answers with the result \<open>label missing\<close>, and
  \<open>Admit\<close> returns the status error of \<open>hook_quota\<close>, which has rejected the
  request as well.
\<close>

theorem Admit_fails_closed_counterexample:
  "hookSource (ex_plugin (Inr [hook_quota, hook_policy])) = Inr [hook_quota, hook_policy] \<and>
   completion_order 2 [0, 1] \<and>
   hook_matches ex_env hook_policy ''pods'' \<and>
   snd (hookClient (ex_plugin (Inr [hook_quota, hook_policy])) ex_env hook_policy
          :: string event list \<times> _) =
     Inr (RESTClient
       \<lparr>Host = ''policy'', APIPath = ''/ns'',
        TLS = \<lparr>CAData = [7], CertData = [1], KeyData = [2]\<rparr>,
        UserAgent = ''kube-apiserver-admission'', Timeout = 30000000000,
        ContentConfig = NegotiatedSerializerWrapper
          \<lparr>gv_Group = ''admission.k8s.io'', gv_Version = ''v1alpha1''\<rparr>\<rparr>) \<and>
   Do ex_env (RESTClient
       \<lparr>Host = ''policy'', APIPath = ''/ns'',
        TLS = \<lparr>CAData = [7], CertData = [1], KeyData = [2]\<rparr>,
        UserAgent = ''kube-apiserver-admission'', Timeout = 30000000000,
        ContentConfig = NegotiatedSerializerWrapper
          \<lparr>gv_Group = ''admission.k8s.io'', gv_Version = ''v1alpha1''\<rparr>\<rparr>)
      (NewAdmissionReview ''pods'') =
     Inr \<lparr>Allowed = False,
          Result = Some \<lparr>status_Reason = ''Invalid'', status_Message = ''label missing''\<rparr>\<rparr> \<and>
   map_option snd (Admit (ex_plugin (Inr [hook_quota, hook_policy])) ex_env ''pods'' [0, 1]) =
     Some (Some (StatusError
       \<lparr>status_Reason = ''Forbidden'', status_Message = ''quota exceeded''\<rparr>)) \<and>
   map_option snd (Admit (ex_plugin (Inr [hook_quota, hook_policy])) ex_env ''pods'' [0, 1]) \<noteq>
     Some (Some (StatusError
       \<lparr>status_Reason = ''Invalid'', status_Message = ''label missing''\<rparr>))"
proof -
  have r: "map_option snd (Admit (ex_plugin (Inr [hook_quota, hook_policy])) ex_env ''pods'' [0, 1]) =
     Some (Some (StatusError
       \<lparr>status_Reason = ''Forbidden'', status_Message = ''quota exceeded''\<rparr>))"
    by code_simp
  show ?thesis
  proof (intro conjI)
    show "hookSource (ex_plugin (Inr [hook_quota, hook_policy])) = Inr [hook_quota, hook_policy]"
      by (simp add: ex_plugin_def)
    show "completion_order 2 [0, 1]"
      by (auto simp: completion_order_def)
    show "hook_matches ex_env hook_policy ''pods''"
      by code_simp
    show "snd (hookClient (ex_plugin (Inr [hook_quota, hook_policy])) ex_env hook_policy
          :: string event list \<times> _) =
     Inr (RESTClient
       \<lparr>Host = ''policy'', APIPath = ''/ns'',
        TLS = \<lparr>CAData = [7], CertData = [1], KeyData = [2]\<rparr>,
        UserAgent = ''kube-apiserver-admission'', Timeout = 30000000000,
        ContentConfig = NegotiatedSerializerWrapper
          \<lparr>gv_Group = ''admission.k8s.io'', gv_Version = ''v1alpha1''\<rparr>\<rparr>)"
      by (simp add: hookClient_def Let_def Second_def ex_plugin_def ex_resolver_def ex_env_def
            hook_policy_def ex_hook_def)
    show "Do ex_env (RESTClient
       \<lparr>Host = ''policy'', APIPath = ''/ns'',
        TLS = \<lparr>CAData = [7], CertData = [1], KeyData = [2]\<rparr>,
        UserAgent = ''kube-apiserver-admission'', Timeout = 30000000000,
        ContentConfig = NegotiatedSerializerWrapper
          \<lparr>gv_Group = ''admission.k8s.io'', gv_Version = ''v1alpha1''\<rparr>\<rparr>)
      (NewAdmissionReview ''pods'') =
     Inr \<lparr>Allowed = False,
          Result = Some \<lparr>status_Reason = ''Invalid'', status_Message = ''label missing''\<rparr>\<rparr>"
      by (simp add: ex_env_def ex_answer_def)
    show "map_option snd (Admit (ex_plugin (Inr [hook_quota, hook_policy])) ex_env ''pods'' [0, 1]) =
     Some (Some (StatusError
       \<lparr>status_Reason = ''Forbidden'', status_Message = ''quota exceeded''\<rparr>))"
      by (rule r)
    show "map_option snd (Admit (ex_plugin (Inr [hook_quota, hook_policy])) ex_env ''pods'' [0, 1]) \<noteq>
     Some (Some (StatusError
       \<lparr>status_Reason = ''Invalid'', status_Message = ''label missing''\<rparr>))"
      unfolding r by simp
  qed
qed

text \<open>
  Claim C3, amended. When a matching hook of the list is called and answers
  \<open>Allowed=false\<close> with a \<open>Result\<close>, \<open>callHook\<close> returns the status error of that
  \<open>Result\<close>, and \<open>Admit\<close> returns a non-nil error in every completion order,
  whatever the other hooks do. The error returned is the rejection sent by one of the
  hooks of the list; it is the status error of this hook when no other hook rejects.
\<close>

theorem Admit_fails_closed:
  assumes "hookSource a = Inr hooks"
    and "completion_order (length hooks) sched"
    and "k < length hooks"
    and "hook_matches env (hooks ! k) attr"
    and "snd (hookClient a env (hooks ! k)) = Inr client"
    and "Do env client (NewAdmissionReview attr) = Inr st"
    and "\<not> Allowed st"
    and "Result st = Some res"
  shows "snd (callHook a env (hooks ! k) attr) = Some (StatusError res) \<and>
         (\<exists>evs e. Admit a env attr sched = Some (evs, Some e) \<and>
            (\<exists>j<length hooks. snd (hook_task a env (hooks ! j) attr) = [e]) \<and>
            ((\<forall>j<length hooks. j \<noteq> k \<longrightarrow> snd (hook_task a env (hooks ! j) attr) = []) \<longrightarrow>
               e = StatusError res))"
proof
  let ?f = "\<lambda>i. snd (hook_task a env (hooks ! i) attr)"
  show r: "snd (callHook a env (hooks ! k) attr) = Some (StatusError res)"
    using callHook_denied [OF assms(4-8)] by simp
  then have s: "?f k = [StatusError res]"
    by (simp add: hook_task_sends)
  have m: "set sched = {0..<length hooks}"
    using assms(2) by (simp add: completion_order_def)
  then have "k \<in> set sched"
    using assms(3) by simp
  then have "StatusError res \<in> set (concat (map ?f sched))"
    using s by (auto intro: bexI [where x = k])
  then obtain e es where c: "concat (map ?f sched) = e # es"
    by (cases "concat (map ?f sched)") auto
  from Admit_first [OF assms(2,1) c]
  obtain evs where a: "Admit a env attr sched = Some (evs, Some e)" ..
  from concat_sends_mem [OF c] obtain j where j: "j \<in> set sched" "e \<in> set (?f j)"
    by blast
  have "length (?f j) \<le> 1"
    by (rule hook_task_sends_length)
  with j(2) have fj: "?f j = [e]"
    by (cases "?f j") auto
  have jl: "j < length hooks"
    using j(1) m by simp
  have "e = StatusError res"
    if o: "\<forall>j<length hooks. j \<noteq> k \<longrightarrow> ?f j = []"
  proof (cases "j = k")
    case True
    then show ?thesis
      using fj s by simp
  next
    case False
    then show ?thesis
      using o jl fj by simp
  qed
  then show "\<exists>evs e. Admit a env attr sched = Some (evs, Some e) \<and>
            (\<exists>j<length hooks. ?f j = [e]) \<and>
            ((\<forall>j<length hooks. j \<noteq> k \<longrightarrow> ?f j = []) \<longrightarrow> e = StatusError res)"
    using a jl fj by blast
qed

theorem Admit_fails_closed_witness:
  "hookSource (ex_plugin (Inr [hook_down, hook_quota, hook_fine])) =
     Inr [hook_down, hook_quota, hook_fine] \<and>
   completion_order (length [hook_down, hook_quota, hook_fine]) [2, 1, 0] \<and>
   1 < length [hook_down, hook_quota, hook_fine] \<and>
   hook_matches ex_env ([hook_down, hook_quota, hook_fine] ! 1) ''pods'' \<and>
   snd (hookClient (ex_plugin (Inr [hook_down, hook_quota, hook_fine])) ex_env
          ([hook_down, hook_quota, hook_fine] ! 1) :: string event list \<times> _) =
     Inr (RESTClient
       \<lparr>Host = ''quota'', APIPath = ''/ns'',
        TLS = \<lparr>CAData = [7], CertData = [1], KeyData = [2]\<rparr>,
        UserAgent = ''kube-apiserver-admission'', Timeout = 30000000000,
        ContentConfig = NegotiatedSerializerWrapper
          \<lparr>gv_Group = ''admission.k8s.io'', gv_Version = ''v1alpha1''\<rparr>\<rparr>) \<and>
   Do ex_env (RESTClient
       \<lparr>Host = ''quota'', APIPath = ''/ns'',
        TLS = \<lparr>CAData = [7], CertData = [1], KeyData = [2]\<rparr>,
        UserAgent = ''kube-apiserver-admission'', Timeout = 30000000000,
        ContentConfig = NegotiatedSerializerWrapper
          \<lparr>gv_Group = ''admission.k8s.io'', gv_Version = ''v1alpha1''\<rparr>\<rparr>)
      (NewAdmissionReview ''pods'') =
     Inr \<lparr>Allowed = False,
          Result = Some \<lparr>status_Reason = ''Forbidden'', status_Message = ''quota exceeded''\<rparr>\<rparr> \<and>
   snd (callHook (ex_plugin (Inr [hook_down, hook_quota, hook_fine])) ex_env
          ([hook_down, hook_quota, hook_fine] ! 1) ''pods'') =
     Some (StatusError \<lparr>status_Reason = ''Forbidden'', status_Message = ''quota exceeded''\<rparr>) \<and>
   (\<exists>evs. Admit (ex_plugin (Inr [hook_down, hook_quota, hook_fine])) ex_env ''pods'' [2, 1, 0] =
      Some (evs, Some (StatusError
        \<lparr>status_Reason = ''Forbidden'', status_Message = ''quota exceeded''\<rparr>)))"
proof -
  let ?a = "ex_plugin (Inr [hook_down, hook_quota, hook_fine])"
  let ?hooks = "[hook_down, hook_quota, hook_fine]"
  let ?f = "\<lambda>i. snd (hook_task ?a ex_env (?hooks ! i) ''pods'')"
  have l: "hookSource ?a = Inr ?hooks"
    by (simp add: ex_plugin_def)
  have o: "completion_order (length ?hooks) [2, 1, 0]"
    by (auto simp: completion_order_def)
  have k: "1 < length ?hooks"
    by simp
  have m: "hook_matches ex_env (?hooks ! 1) ''pods''"
    by code_simp
  have c: "snd (hookClient ?a ex_env (?hooks ! 1) :: string event list \<times> _) =
     Inr (RESTClient
       \<lparr>Host = ''quota'', APIPath = ''/ns'',
        TLS = \<lparr>CAData = [7], CertData = [1], KeyData = [2]\<rparr>,
        UserAgent = ''kube-apiserver-admission'', Timeout = 30000000000,
        ContentConfig = NegotiatedSerializerWrapper
          \<lparr>gv_Group = ''admission.k8s.io'', gv_Version = ''v1alpha1''\<rparr>\<rparr>)"
    by (simp add: hookClient_def Let_def Second_def ex_plugin_def ex_resolver_def ex_env_def
          hook_quota_def ex_hook_def)
  have d: "Do ex_env (RESTClient
       \<lparr>Host = ''quota'', APIPath = ''/ns'',
        TLS = \<lparr>CAData = [7], CertData = [1], KeyData = [2]\<rparr>,
        UserAgent = ''kube-apiserver-admission'', Timeout = 30000000000,
        ContentConfig = NegotiatedSerializerWrapper
          \<lparr>gv_Group = ''admission.k8s.io'', gv_Version = ''v1alpha1''\<rparr>\<rparr>)
      (NewAdmissionReview ''pods'') =
     Inr \<lparr>Allowed = False,
          Result = Some \<lparr>status_Reason = ''Forbidden'', status_Message = ''quota exceeded''\<rparr>\<rparr>"
    by (simp add: ex_env_def ex_answer_def)
  have n: "\<not> Allowed \<lparr>Allowed = False,
          Result = Some \<lparr>status_Reason = ''Forbidden'', status_Message = ''quota exceeded''\<rparr>\<rparr>"
    by simp
  have q: "Result \<lparr>Allowed = False,
          Result = Some \<lparr>status_Reason = ''Forbidden'', status_Message = ''quota exceeded''\<rparr>\<rparr> =
        Some \<lparr>status_Reason = ''Forbidden'', status_Message = ''quota exceeded''\<rparr>"
    by simp
  have f0: "?f 0 = []" and f2: "?f 2 = []"
    by code_simp+
  have others: "\<forall>j<length ?hooks. j \<noteq> 1 \<longrightarrow> ?f j = []"
  proof (intro allI impI)
    fix j :: nat
    assume "j < length ?hooks" and "j \<noteq> 1"
    then have "j = 0 \<or> j = 2"
      by auto
    then show "?f j = []"
      using f0 f2 by auto
  qed
  note th = Admit_fails_closed [OF l o k m c d n q]
  from th [THEN conjunct2] others
  have r: "\<exists>evs. Admit ?a ex_env ''pods'' [2, 1, 0] =
      Some (evs, Some (StatusError
        \<lparr>status_Reason = ''Forbidden'', status_Message = ''quota exceeded''\<rparr>))"
    by blast
  show ?thesis
    by (intro conjI) (rule l o k m c d r th [THEN conjunct1])+
qed

end
